theory Spec2Isabelle
  imports Main "HOL-Library.Multiset" "HOL-Library.AList" "HOL-Library.Sublist"
begin

section \<open>Python strings\<close>

text \<open>
  A Python \<open>str\<close> is modelled as a \<open>string\<close>: a character is a code point below 256
  (the Latin-1 range), which covers every literal of the source. The predicates below are
  the restrictions of \<open>str.isspace\<close> and \<open>str.lower\<close> to that range.
\<close>

definition py_isspace :: "char \<Rightarrow> bool" where
  "py_isspace c =
     (let n = of_char c :: nat
      in (9 \<le> n \<and> n \<le> 13) \<or> (28 \<le> n \<and> n \<le> 32) \<or> n = 133 \<or> n = 160)"

definition py_lower_char :: "char \<Rightarrow> char" where
  "py_lower_char c =
     (let n = of_char c :: nat
      in if (65 \<le> n \<and> n \<le> 90) \<or> (192 \<le> n \<and> n \<le> 222 \<and> n \<noteq> 215)
         then char_of (n + 32) else c)"

definition lower :: "string \<Rightarrow> string" where
  "lower s = map py_lower_char s"

definition replace_char :: "char \<Rightarrow> char \<Rightarrow> string \<Rightarrow> string" where
  "replace_char old new s = map (\<lambda>c. if c = old then new else c) s"

definition strip :: "string \<Rightarrow> string" where
  "strip s = rev (dropWhile py_isspace (rev (dropWhile py_isspace s)))"

fun startswith :: "string \<Rightarrow> string \<Rightarrow> bool" where
  "startswith s [] = True"
| "startswith [] (p # ps) = False"
| "startswith (c # cs) (p # ps) = (c = p \<and> startswith cs ps)"

definition endswith :: "string \<Rightarrow> string \<Rightarrow> bool" where
  "endswith s ending = startswith (rev s) (rev ending)"

text \<open>\<open>p in s\<close> for strings: \<open>p\<close> occurs as a contiguous substring of \<open>s\<close>.\<close>

fun contains :: "string \<Rightarrow> string \<Rightarrow> bool" where
  "contains [] p = (p = [])"
| "contains (c # cs) p = (startswith (c # cs) p \<or> contains cs p)"

section \<open>The regular expressions of the source\<close>

text \<open>
  The source uses the backtracking matcher of Python's \<open>re\<close> on a small fragment of the
  pattern language: literal characters, \<open>.\<close> (any character but a newline, no pattern
  with a dot sets DOTALL), \<open>$\<close>, the greedy \<open>\s*\<close>, one lazy capturing group
  \<open>([\s\S]*?)\<close>, and alternation at the top level. A pattern is a list of alternatives,
  each a list of atoms; \<open>ignorecase\<close> is the IGNORECASE flag.
\<close>

datatype atom = Lit char | Dot | EndAnchor | SpaceStar | LazyGroup

type_synonym regex = "atom list list"

definition newline :: char where
  "newline = CHR 0x0A"

definition lit_eq :: "bool \<Rightarrow> char \<Rightarrow> char \<Rightarrow> bool" where
  "lit_eq ignorecase p c = (if ignorecase then py_lower_char p = py_lower_char c else p = c)"

text \<open>
  \<open>match_here ic ps s\<close> matches the atoms \<open>ps\<close> at the start of \<open>s\<close>, trying the
  alternatives of each repetition in the order of a backtracking matcher (greedy: longest
  first; lazy: shortest first). The result is the text captured by the group of the first
  successful alternative (\<open>[]\<close> when the pattern has no group).
\<close>

fun match_here :: "bool \<Rightarrow> atom list \<Rightarrow> string \<Rightarrow> string option" where
  "match_here ic [] s = Some []"
| "match_here ic (Lit p # ps) [] = None"
| "match_here ic (Lit p # ps) (c # cs) =
     (if lit_eq ic p c then match_here ic ps cs else None)"
| "match_here ic (Dot # ps) [] = None"
| "match_here ic (Dot # ps) (c # cs) =
     (if c \<noteq> newline then match_here ic ps cs else None)"
| "match_here ic (EndAnchor # ps) s =
     (if s = [] \<or> s = [newline] then match_here ic ps s else None)"
| "match_here ic (SpaceStar # ps) [] = match_here ic ps []"
| "match_here ic (SpaceStar # ps) (c # cs) =
     (if py_isspace c
      then (case match_here ic (SpaceStar # ps) cs of
              Some g \<Rightarrow> Some g
            | None \<Rightarrow> match_here ic ps (c # cs))
      else match_here ic ps (c # cs))"
| "match_here ic (LazyGroup # ps) [] =
     (case match_here ic ps [] of Some _ \<Rightarrow> Some [] | None \<Rightarrow> None)"
| "match_here ic (LazyGroup # ps) (c # cs) =
     (case match_here ic ps (c # cs) of
        Some _ \<Rightarrow> Some []
      | None \<Rightarrow> map_option ((#) c) (match_here ic (LazyGroup # ps) cs))"

fun match_alts :: "bool \<Rightarrow> regex \<Rightarrow> string \<Rightarrow> string option" where
  "match_alts ic [] s = None"
| "match_alts ic (alt # alts) s =
     (case match_here ic alt s of Some g \<Rightarrow> Some g | None \<Rightarrow> match_alts ic alts s)"

text \<open>\<open>re.search\<close>: the match at the leftmost position that has one; \<open>None\<close> for no match.\<close>

fun re_search :: "bool \<Rightarrow> regex \<Rightarrow> string \<Rightarrow> string option" where
  "re_search ic r [] = match_alts ic r []"
| "re_search ic r (c # cs) =
     (case match_alts ic r (c # cs) of Some g \<Rightarrow> Some g | None \<Rightarrow> re_search ic r cs)"

text \<open>
  \<open>re_compile\<close> reads the pattern strings of the filter rules, in which every character
  but \<open>.\<close> and \<open>|\<close> stands for itself.
\<close>

fun compile_alt :: "string \<Rightarrow> atom list" where
  "compile_alt [] = []"
| "compile_alt (c # cs) = (if c = CHR ''.'' then Dot else Lit c) # compile_alt cs"

fun split_bar :: "string \<Rightarrow> string \<Rightarrow> string list" where
  "split_bar acc [] = [rev acc]"
| "split_bar acc (c # cs) =
     (if c = CHR ''|'' then rev acc # split_bar [] cs else split_bar (c # acc) cs)"

definition re_compile :: "string \<Rightarrow> regex" where
  "re_compile p = map compile_alt (split_bar [] p)"

section \<open>Hard exclusion rules\<close>

text \<open>
  A finding is a Python \<open>dict\<close> with string keys. A value is a \<open>str\<close> or any other value a
  decoded document can hold (\<open>None\<close>, a number, a boolean, a list, a dict); the rules only
  ever read strings, so the other values are a parameter \<open>'a\<close> of the model. Applying a
  string method or a pattern to such a value raises, and the exception is the \<open>Inl\<close> result.
\<close>

datatype 'a pyval = PyStr string | PyOther 'a

datatype exn = AttributeError | TypeError

type_synonym 'a finding = "string \<rightharpoonup> 'a pyval"

text \<open>\<open>finding.get(key, "")\<close>\<close>

definition dict_get :: "'a finding \<Rightarrow> string \<Rightarrow> 'a pyval" where
  "dict_get finding key = (case finding key of None \<Rightarrow> PyStr [] | Some v \<Rightarrow> v)"

definition DOS_PATTERNS :: regex where
  "DOS_PATTERNS = re_compile
     (''denial.of.service|dos.attack|resource.exhaust|cpu.exhaust|'' @
      ''memory.exhaust|bandwidth.exhaust|disk.exhaust'')"

definition RATE_LIMITING_PATTERNS :: regex where
  "RATE_LIMITING_PATTERNS = re_compile
     ''rate.limit|throttl|brute.force.protection|request.flood''"

definition RESOURCE_PATTERNS :: regex where
  "RESOURCE_PATTERNS = re_compile
     (''memory.leak|file.descriptor.leak|resource.leak|'' @
      ''unclosed.resource|connection.leak'')"

definition OPEN_REDIRECT_PATTERNS :: regex where
  "OPEN_REDIRECT_PATTERNS = re_compile ''open.redirect|unvalidated.redirect''"

definition MEMORY_SAFETY_PATTERNS :: regex where
  "MEMORY_SAFETY_PATTERNS = re_compile
     (''buffer.overflow|use.after.free|out.of.bounds|'' @
      ''heap.overflow|stack.overflow|dangling.pointer'')"

definition REGEX_INJECTION_PATTERNS :: regex where
  "REGEX_INJECTION_PATTERNS = re_compile
     ''regex.injection|regexp.injection|redos|regex.dos''"

definition LOG_SPOOFING_PATTERNS :: regex where
  "LOG_SPOOFING_PATTERNS = re_compile ''log.spoofing|log.injection|log.forging''"

definition MISSING_AUDIT_LOG_PATTERNS :: regex where
  "MISSING_AUDIT_LOG_PATTERNS = re_compile ''audit.log|missing.log|insufficient.log''"

definition HARDENING_PATTERNS :: regex where
  "HARDENING_PATTERNS = re_compile
     (''lack.of.hardening|missing.hardening|should.implement|'' @
      ''recommended.to.add|best.practice'')"

text \<open>The pattern \<open>\.(rs|go)$\<close>, with the group written out as two alternatives.\<close>

definition MEMORY_SAFE_LANGS :: regex where
  "MEMORY_SAFE_LANGS =
     [[Lit (CHR ''.''), Lit (CHR ''r''), Lit (CHR ''s''), EndAnchor],
      [Lit (CHR ''.''), Lit (CHR ''g''), Lit (CHR ''o''), EndAnchor]]"

definition EXCLUDED_CATEGORIES :: "string set" where
  "EXCLUDED_CATEGORIES =
     {''dos'', ''denial_of_service'', ''rate_limiting'', ''resource_exhaustion'',
      ''memory_leak'', ''regex_injection'', ''regex_dos'', ''log_spoofing'',
      ''open_redirect'', ''missing_audit_log''}"

text \<open>\<open>pattern.search(text)\<close> of a pattern compiled with IGNORECASE, as a truth value.\<close>

definition search :: "regex \<Rightarrow> string \<Rightarrow> bool" where
  "search pattern text = (re_search True pattern text \<noteq> None)"

definition is_test_file :: "string \<Rightarrow> bool" where
  "is_test_file file_path =
     (let lower = lower file_path;
          test_patterns =
            [''/test/'', ''/tests/'', ''/spec/'', ''/specs/'',
             ''_test.'', ''.test.'', ''.spec.'',
             ''test_'', ''_spec.'']
      in list_ex (\<lambda>p. contains lower p) test_patterns)"

definition normalize_category :: "string \<Rightarrow> string" where
  "normalize_category c = replace_char (CHR ''-'') (CHR ''_'') (lower c)"

definition get_exclusion_reason :: "'a finding \<Rightarrow> exn + string option" where
  "get_exclusion_reason finding =
     (case dict_get finding ''category'' of
        PyOther _ \<Rightarrow> Inl AttributeError
      | PyStr c \<Rightarrow>
          let category = normalize_category c in
          if category \<in> EXCLUDED_CATEGORIES
          then Inr (Some (''excluded_category:'' @ category))
          else
            (case dict_get finding ''description'' of
               PyOther _ \<Rightarrow> Inl TypeError
             | PyStr description \<Rightarrow>
                 if search DOS_PATTERNS description then Inr (Some ''dos_pattern'')
                 else if search RATE_LIMITING_PATTERNS description
                   then Inr (Some ''rate_limiting_pattern'')
                 else if search RESOURCE_PATTERNS description
                   then Inr (Some ''resource_leak_pattern'')
                 else if search OPEN_REDIRECT_PATTERNS description
                   then Inr (Some ''open_redirect_pattern'')
                 else if search REGEX_INJECTION_PATTERNS description
                   then Inr (Some ''regex_injection_pattern'')
                 else if search LOG_SPOOFING_PATTERNS description
                   then Inr (Some ''log_spoofing_pattern'')
                 else if search MISSING_AUDIT_LOG_PATTERNS description
                   then Inr (Some ''missing_audit_log_pattern'')
                 else if search HARDENING_PATTERNS description
                   then Inr (Some ''hardening_best_practice'')
                 else
                   (case dict_get finding ''file'' of
                      PyOther _ \<Rightarrow>
                        if search MEMORY_SAFETY_PATTERNS description
                        then Inl TypeError else Inl AttributeError
                    | PyStr file_path \<Rightarrow>
                        if search MEMORY_SAFETY_PATTERNS description
                           \<and> search MEMORY_SAFE_LANGS file_path
                          then Inr (Some ''memory_safety_in_safe_language'')
                        else if is_test_file file_path then Inr (Some ''test_file_only'')
                        else if list_ex (endswith file_path)
                                  [''.md'', ''.rst'', ''.txt'', ''.adoc'']
                          then Inr (Some ''documentation_file'')
                        else Inr None)))"

section \<open>The findings filter\<close>

text \<open>
  The filter works on dict objects: it appends the very object it was given to \<open>kept\<close>,
  and a fresh dict, made by \<open>dict(finding)\<close> and then updated, to \<open>excluded\<close>. The store
  maps a reference to the contents of its object; \<open>lim\<close> is the next free reference.
\<close>

type_synonym ref = nat

record 'a store =
  objs :: "ref \<Rightarrow> 'a finding"
  lim :: ref

text \<open>\<open>dict(finding)\<close>: a new object with the same items.\<close>

definition dict_copy :: "'a store \<Rightarrow> ref \<Rightarrow> ref \<times> 'a store" where
  "dict_copy h r = (lim h, h\<lparr>objs := (objs h)(lim h := objs h r), lim := Suc (lim h)\<rparr>)"

text \<open>\<open>finding[key] = value\<close>\<close>

definition setitem :: "'a store \<Rightarrow> ref \<Rightarrow> string \<Rightarrow> 'a pyval \<Rightarrow> 'a store" where
  "setitem h r key v = h\<lparr>objs := (objs h)(r := (objs h r)(key \<mapsto> v))\<rparr>"

text \<open>
  The statistics of one call. The two clock readings and the elapsed time computed from
  them are floating-point values that no rule reads; they are not part of the model.
  \<open>exclusion_breakdown\<close> is a dict in insertion order.
\<close>

record FilterStats =
  total_findings :: int
  hard_excluded :: int
  kept_findings :: int
  exclusion_breakdown :: "(string \<times> int) list"

record summary =
  summary_total_findings :: int
  summary_kept_findings :: int
  summary_excluded_findings :: int
  summary_exclusion_breakdown :: "(string \<times> int) list"

record filter_result =
  filtered_findings :: "ref list"
  excluded_findings :: "ref list"
  analysis_summary :: summary

text \<open>\<open>breakdown[reason] = breakdown.get(reason, 0) + 1\<close>\<close>

definition bump :: "(string \<times> int) list \<Rightarrow> string \<Rightarrow> (string \<times> int) list" where
  "bump breakdown reason =
     AList.update reason ((case map_of breakdown reason of None \<Rightarrow> 0 | Some n \<Rightarrow> n) + 1)
       breakdown"

text \<open>
  The loop over \<open>findings\<close>, with the store, \<open>kept\<close>, \<open>excluded\<close> and \<open>stats\<close> as its
  state. \<open>if reason:\<close> holds for a string that is not empty.
\<close>

fun filter_loop ::
  "bool \<Rightarrow> ref list \<Rightarrow> 'a store \<Rightarrow> ref list \<Rightarrow> ref list \<Rightarrow> FilterStats
     \<Rightarrow> exn + ('a store \<times> ref list \<times> ref list \<times> FilterStats)" where
  "filter_loop use_hard_exclusions [] h kept excluded stats = Inr (h, kept, excluded, stats)"
| "filter_loop use_hard_exclusions (finding # findings) h kept excluded stats =
     (if use_hard_exclusions then
        (case get_exclusion_reason (objs h finding) of
           Inl e \<Rightarrow> Inl e
         | Inr None \<Rightarrow>
             filter_loop use_hard_exclusions findings h (kept @ [finding]) excluded stats
         | Inr (Some reason) \<Rightarrow>
             if reason \<noteq> [] then
               (let (finding', h1) = dict_copy h finding;
                    h2 = setitem h1 finding' ''exclusion_reason'' (PyStr reason);
                    stats' = stats
                      \<lparr>hard_excluded := hard_excluded stats + 1,
                       exclusion_breakdown := bump (exclusion_breakdown stats) reason\<rparr>
                in filter_loop use_hard_exclusions findings h2 kept
                     (excluded @ [finding']) stats')
             else filter_loop use_hard_exclusions findings h (kept @ [finding]) excluded stats)
      else filter_loop use_hard_exclusions findings h (kept @ [finding]) excluded stats)"

definition filter_findings ::
  "bool \<Rightarrow> 'a store \<Rightarrow> ref list \<Rightarrow> exn + ('a store \<times> bool \<times> filter_result \<times> FilterStats)" where
  "filter_findings use_hard_exclusions h findings =
     (let stats = \<lparr>total_findings = int (length findings), hard_excluded = 0,
                   kept_findings = 0, exclusion_breakdown = []\<rparr>
      in case filter_loop use_hard_exclusions findings h [] [] stats of
           Inl e \<Rightarrow> Inl e
         | Inr (h', kept, excluded, stats') \<Rightarrow>
             let stats'' = stats'\<lparr>kept_findings := int (length kept)\<rparr>;
                 result = \<lparr>filtered_findings = kept,
                           excluded_findings = excluded,
                           analysis_summary =
                             \<lparr>summary_total_findings = total_findings stats'',
                              summary_kept_findings = kept_findings stats'',
                              summary_excluded_findings = int (length excluded),
                              summary_exclusion_breakdown = exclusion_breakdown stats''\<rparr>\<rparr>
             in Inr (h', True, result, stats''))"

section \<open>The structured-output decoder\<close>

text \<open>
  \<open>json.loads\<close> belongs to the Python library, not to this program: it is the parameter
  \<open>loads\<close>. A call returns the parsed value, raises \<open>JSONDecodeError\<close> (the one exception
  the decoder catches), or raises something else, which the decoder lets through.
  The logger calls are left out; \<open>context\<close> only feeds them.
\<close>

datatype ('v, 'e) loads_result = Parsed 'v | JSONDecodeError | Raises 'e

definition backslash :: char where
  "backslash = CHR 0x5C"

definition dquote :: char where
  "dquote = CHR 0x22"

text \<open>\<open>text.find(ch)\<close>: the first index of \<open>ch\<close>, or \<open>-1\<close>.\<close>

definition find_char :: "string \<Rightarrow> char \<Rightarrow> int" where
  "find_char text ch =
     (if ch \<in> set text then int (length (takeWhile (\<lambda>c. c \<noteq> ch) text)) else - 1)"

definition code_block_patterns :: "regex list" where
  "code_block_patterns =
     [[map Lit ''```json'' @ [SpaceStar, LazyGroup, SpaceStar] @ map Lit ''```''],
      [map Lit ''```'' @ [SpaceStar, LazyGroup, SpaceStar] @ map Lit ''```'']]"

text \<open>
  Strategy 2, the loop over the patterns. \<open>Inr (Some v)\<close> is \<open>return True, v\<close>,
  \<open>Inr None\<close> is the end of the loop, \<open>Inl e\<close> an exception that is not caught.
\<close>

fun code_block_strategy ::
  "(string \<Rightarrow> ('v, 'e) loads_result) \<Rightarrow> string \<Rightarrow> regex list \<Rightarrow> 'e + 'v option" where
  "code_block_strategy loads text [] = Inr None"
| "code_block_strategy loads text (pattern # patterns) =
     (case re_search False pattern text of
        None \<Rightarrow> code_block_strategy loads text patterns
      | Some group1 \<Rightarrow>
          (case loads (strip group1) of
             Parsed result \<Rightarrow> Inr (Some result)
           | JSONDecodeError \<Rightarrow> code_block_strategy loads text patterns
           | Raises e \<Rightarrow> Inl e))"

text \<open>
  Strategy 3, the inner loop \<open>for i in range(start_idx, len(text))\<close>: \<open>seen\<close> is
  \<open>text[start_idx:i]\<close> and the list argument is \<open>text[i:]\<close>, so the candidate
  \<open>text[start_idx:i + 1]\<close> is \<open>seen @ [char]\<close>. \<open>Inr None\<close> is the end of the loop,
  by \<open>break\<close> or by running out of characters.
\<close>

fun bracket_scan ::
  "(string \<Rightarrow> ('v, 'e) loads_result) \<Rightarrow> char \<Rightarrow> char \<Rightarrow> string \<Rightarrow> string
     \<Rightarrow> int \<Rightarrow> bool \<Rightarrow> bool \<Rightarrow> 'e + 'v option" where
  "bracket_scan loads start_char end_char seen [] depth in_string escape_next = Inr None"
| "bracket_scan loads start_char end_char seen (char # rest) depth in_string escape_next =
     (if escape_next
        then bracket_scan loads start_char end_char (seen @ [char]) rest depth in_string False
      else if char = backslash \<and> in_string
        then bracket_scan loads start_char end_char (seen @ [char]) rest depth in_string True
      else if char = dquote \<and> \<not> escape_next
        then bracket_scan loads start_char end_char (seen @ [char]) rest depth
               (\<not> in_string) escape_next
      else if in_string
        then bracket_scan loads start_char end_char (seen @ [char]) rest depth
               in_string escape_next
      else if char = start_char
        then bracket_scan loads start_char end_char (seen @ [char]) rest (depth + 1)
               in_string escape_next
      else if char = end_char
        then (if depth - 1 = 0
              then (case loads (seen @ [char]) of
                      Parsed result \<Rightarrow> Inr (Some result)
                    | JSONDecodeError \<Rightarrow> Inr None
                    | Raises e \<Rightarrow> Inl e)
              else bracket_scan loads start_char end_char (seen @ [char]) rest (depth - 1)
                     in_string escape_next)
      else bracket_scan loads start_char end_char (seen @ [char]) rest depth
             in_string escape_next)"

text \<open>Strategy 3, the loop over the two pairs of delimiters.\<close>

fun bracket_strategy ::
  "(string \<Rightarrow> ('v, 'e) loads_result) \<Rightarrow> string \<Rightarrow> (char \<times> char) list \<Rightarrow> 'e + 'v option" where
  "bracket_strategy loads text [] = Inr None"
| "bracket_strategy loads text ((start_char, end_char) # pairs) =
     (let start_idx = find_char text start_char
      in if start_idx = - 1 then bracket_strategy loads text pairs
         else (case bracket_scan loads start_char end_char []
                      (drop (nat start_idx) text) 0 False False of
                 Inl e \<Rightarrow> Inl e
               | Inr (Some result) \<Rightarrow> Inr (Some result)
               | Inr None \<Rightarrow> bracket_strategy loads text pairs))"

text \<open>
  The result \<open>Inr (True, Some v)\<close> is \<open>return True, v\<close>, \<open>Inr (False, None)\<close> is
  \<open>return False, None\<close>, and \<open>Inl e\<close> is an exception leaving the function.
\<close>

definition parse_json_with_fallbacks ::
  "(string \<Rightarrow> ('v, 'e) loads_result) \<Rightarrow> string \<Rightarrow> string \<Rightarrow> 'e + (bool \<times> 'v option)" where
  "parse_json_with_fallbacks loads text context =
     (if text = [] \<or> strip text = [] then Inr (False, None)
      else
        (case loads (strip text) of
           Parsed result \<Rightarrow> Inr (True, Some result)
         | Raises e \<Rightarrow> Inl e
         | JSONDecodeError \<Rightarrow>
             (case code_block_strategy loads text code_block_patterns of
                Inl e \<Rightarrow> Inl e
              | Inr (Some result) \<Rightarrow> Inr (True, Some result)
              | Inr None \<Rightarrow>
                  (case bracket_strategy loads text
                          [(CHR ''{'', CHR ''}''), (CHR ''['', CHR '']'')] of
                     Inl e \<Rightarrow> Inl e
                   | Inr (Some result) \<Rightarrow> Inr (True, Some result)
                   | Inr None \<Rightarrow> Inr (False, None)))))"

section \<open>Notions used to state the properties\<close>

text \<open>
  The branch the loop of \<open>filter_findings\<close> takes on a finding: \<open>Some reason\<close> when the
  finding is excluded under \<open>reason\<close>, \<open>None\<close> when it is kept.
\<close>

definition exclusion :: "bool \<Rightarrow> 'a finding \<Rightarrow> string option" where
  "exclusion use_hard_exclusions finding =
     (if use_hard_exclusions
      then (case get_exclusion_reason finding of
              Inr (Some reason) \<Rightarrow> if reason \<noteq> [] then Some reason else None
            | _ \<Rightarrow> None)
      else None)"

text \<open>The contents of the copy that goes to \<open>excluded\<close>.\<close>

definition tagged :: "'a finding \<Rightarrow> string \<Rightarrow> 'a finding" where
  "tagged finding reason = finding(''exclusion_reason'' \<mapsto> PyStr reason)"

text \<open>
  A finding of the documented shape: \<open>category\<close>, \<open>description\<close> and \<open>file\<close> are strings
  where they are present.
\<close>

definition str_or_absent :: "'a finding \<Rightarrow> string \<Rightarrow> bool" where
  "str_or_absent finding key =
     (case finding key of Some (PyOther _) \<Rightarrow> False | _ \<Rightarrow> True)"

definition well_formed :: "'a finding \<Rightarrow> bool" where
  "well_formed finding =
     (str_or_absent finding ''category'' \<and> str_or_absent finding ''description''
      \<and> str_or_absent finding ''file'')"

text \<open>
  The example scenario: a store with the two findings, and what the filter returns. The
  findings hold strings only, so the type of the other values is \<open>unit\<close>.
\<close>

definition dos_finding :: "unit finding" where
  "dos_finding = [''category'' \<mapsto> PyStr ''dos'', ''description'' \<mapsto> PyStr ''x'']"

definition sqli_finding :: "unit finding" where
  "sqli_finding =
     [''category'' \<mapsto> PyStr ''sqli'',
      ''description'' \<mapsto> PyStr ''SQL injection via unescaped input'',
      ''file'' \<mapsto> PyStr ''app.py'']"

definition example_store :: "unit store" where
  "example_store = \<lparr>objs = (\<lambda>_. Map.empty)(0 := dos_finding, 1 := sqli_finding), lim = 2\<rparr>"

definition example_store_after :: "unit store" where
  "example_store_after =
     \<lparr>objs = (objs example_store)(2 := tagged dos_finding ''excluded_category:dos''),
      lim = 3\<rparr>"

definition example_stats :: FilterStats where
  "example_stats =
     \<lparr>total_findings = 2, hard_excluded = 1, kept_findings = 1,
      exclusion_breakdown = [(''excluded_category:dos'', 1)]\<rparr>"

definition example_result :: filter_result where
  "example_result =
     \<lparr>filtered_findings = [1], excluded_findings = [2],
      analysis_summary =
        \<lparr>summary_total_findings = 2, summary_kept_findings = 1,
         summary_excluded_findings = 1,
         summary_exclusion_breakdown = [(''excluded_category:dos'', 1)]\<rparr>\<rparr>"

text \<open>
  What a call decides, for comparing two calls: how many findings it kept, the
  \<open>exclusion_reason\<close> of each excluded entry, and the statistics (or the exception).
\<close>

definition decision ::
  "exn + ('a store \<times> bool \<times> filter_result \<times> FilterStats)
     \<Rightarrow> exn + (nat \<times> 'a pyval option list \<times> FilterStats)" where
  "decision out =
     map_sum id
       (\<lambda>(h', ok, res, stats).
          (length (filtered_findings res),
           map (\<lambda>e. objs h' e ''exclusion_reason'') (excluded_findings res),
           stats))
       out"

text \<open>Two findings that differ in the spelling of the category only.\<close>

definition rate_store :: "unit store" where
  "rate_store =
     \<lparr>objs = (\<lambda>_. Map.empty)
        (0 := [''category'' \<mapsto> PyStr ''Rate-Limiting''],
         1 := [''category'' \<mapsto> PyStr ''rate_limiting'']),
      lim = 2\<rparr>"

text \<open>
  The rules \<open>get_exclusion_reason\<close> tries before the memory-safety rule: the excluded
  categories and the eight description patterns.
\<close>

definition earlier_rule_fires :: "string \<Rightarrow> string \<Rightarrow> bool" where
  "earlier_rule_fires category description =
     (normalize_category category \<in> EXCLUDED_CATEGORIES
      \<or> search DOS_PATTERNS description
      \<or> search RATE_LIMITING_PATTERNS description
      \<or> search RESOURCE_PATTERNS description
      \<or> search OPEN_REDIRECT_PATTERNS description
      \<or> search REGEX_INJECTION_PATTERNS description
      \<or> search LOG_SPOOFING_PATTERNS description
      \<or> search MISSING_AUDIT_LOG_PATTERNS description
      \<or> search HARDENING_PATTERNS description)"

text \<open>A buffer overflow reported in a Python file and in a Rust file.\<close>

definition overflow_finding :: "string \<Rightarrow> string \<Rightarrow> unit finding" where
  "overflow_finding description file_path =
     [''description'' \<mapsto> PyStr description, ''file'' \<mapsto> PyStr file_path]"

text \<open>
  A stand-in for \<open>json.loads\<close> on the text of one example: it parses the single document
  \<open>doc\<close>, to the value \<open>v\<close>, and raises \<open>JSONDecodeError\<close> on every other string.
\<close>

definition loads_only :: "string \<Rightarrow> 'v \<Rightarrow> string \<Rightarrow> ('v, 'e) loads_result" where
  "loads_only doc v s = (if s = doc then Parsed v else JSONDecodeError)"

text \<open>
  Exceptions of \<open>json.loads\<close> other than \<open>JSONDecodeError\<close>, and a stand-in for
  \<open>json.loads\<close> on the text of one example: it raises \<open>e\<close> on the document \<open>doc\<close> and
  \<open>JSONDecodeError\<close> on every other string.
\<close>

datatype json_exn = RecursionError | ValueError

definition loads_raising :: "string \<Rightarrow> 'e \<Rightarrow> string \<Rightarrow> ('v, 'e) loads_result" where
  "loads_raising doc e s = (if s = doc then Raises e else JSONDecodeError)"

section \<open>Evaluation of the character predicates\<close>

text \<open>The two predicates on the bits of a character, for evaluation.\<close>

lemma py_lower_char_code [code]:
  "py_lower_char (Char b0 b1 b2 b3 b4 b5 b6 b7) =
     (if b6 \<and> \<not> b5 \<and>
         (if b7 then \<not> (b4 \<and> b2 \<and> b1 \<and> b0)
          else (b0 \<or> b1 \<or> b2 \<or> b3 \<or> b4) \<and> \<not> (b4 \<and> b3 \<and> (b2 \<or> (b1 \<and> b0))))
      then Char b0 b1 b2 b3 b4 True b6 b7
      else Char b0 b1 b2 b3 b4 b5 b6 b7)"
  by (cases b0; cases b1; cases b2; cases b3; cases b4; cases b5; cases b6; cases b7;
      simp add: py_lower_char_def char_of_def bit_Suc_0_iff)

lemma py_isspace_code [code]:
  "py_isspace (Char b0 b1 b2 b3 b4 b5 b6 b7) =
     (if b7 then \<not> b6 \<and> \<not> b4 \<and> \<not> b3 \<and> \<not> b1 \<and> (b5 \<longleftrightarrow> \<not> b2) \<and> (b5 \<longleftrightarrow> \<not> b0)
      else \<not> b6 \<and>
        (if b5 then \<not> (b0 \<or> b1 \<or> b2 \<or> b3 \<or> b4)
         else if b4 then b3 \<and> b2
         else b3 \<and> (b0 \<or> b1 \<or> b2) \<and> \<not> (b2 \<and> b1)))"
  by (cases b0; cases b1; cases b2; cases b3; cases b4; cases b5; cases b6; cases b7;
      simp add: py_isspace_def)

section \<open>The loop of the filter\<close>

lemma bump_sum: "sum_list (map snd (bump bd k)) = sum_list (map snd bd) + 1"
  unfolding bump_def by (induction bd) auto

lemma bump_distinct: "distinct (map fst bd) \<Longrightarrow> distinct (map fst (bump bd k))"
  unfolding bump_def by (simp add: distinct_update)

lemma filter_loop_off:
  "filter_loop False rs h kept excl st = Inr (h, kept @ rs, excl, st)"
  by (induction rs arbitrary: kept) auto

lemma filter_loop_keep_all:
  "\<forall>r\<in>set rs. get_exclusion_reason (objs h r) = Inr None
      \<or> get_exclusion_reason (objs h r) = Inr (Some [])
   \<Longrightarrow> filter_loop u rs h kept excl st = Inr (h, kept @ rs, excl, st)"
  by (induction rs arbitrary: kept) auto

lemma filter_loop_spec:
  assumes "filter_loop u rs h kept excl st = Inr (h', kept', excl', st')"
    and "\<forall>r\<in>set rs. r < lim h"
  shows "lim h \<le> lim h' \<and> (\<forall>a<lim h. objs h' a = objs h a)
     \<and> kept' = kept @ filter (\<lambda>r. exclusion u (objs h r) = None) rs
     \<and> (\<exists>new. excl' = excl @ new \<and> lim h' = lim h + length new
          \<and> list_all2 (\<lambda>e orig. lim h \<le> e \<and> e < lim h'
                \<and> objs h' e = tagged (objs h orig) (the (exclusion u (objs h orig))))
              new (filter (\<lambda>r. exclusion u (objs h r) \<noteq> None) rs)
          \<and> hard_excluded st' = hard_excluded st + int (length new)
          \<and> sum_list (map snd (exclusion_breakdown st'))
               = sum_list (map snd (exclusion_breakdown st)) + int (length new))
     \<and> total_findings st' = total_findings st
     \<and> (distinct (map fst (exclusion_breakdown st))
          \<longrightarrow> distinct (map fst (exclusion_breakdown st')))
     \<and> (u \<longrightarrow> (\<forall>r\<in>set rs. \<exists>x. get_exclusion_reason (objs h r) = Inr x))"
  using assms
proof (induction rs arbitrary: h kept excl st)
  case Nil
  then show ?case by simp
next
  case (Cons r rs)
  show ?case
  proof (cases "exclusion u (objs h r)")
    case None
    then have step: "filter_loop u rs h (kept @ [r]) excl st = Inr (h', kept', excl', st')"
      and ok: "u \<longrightarrow> (\<exists>x. get_exclusion_reason (objs h r) = Inr x)"
      using Cons.prems(1)
      by (auto simp: exclusion_def split: if_splits sum.splits option.splits)
    from Cons.IH[OF step] Cons.prems(2) None ok show ?thesis by auto
  next
    case (Some reason)
    then have u: u and gr: "get_exclusion_reason (objs h r) = Inr (Some reason)"
      and ne: "reason \<noteq> []"
      by (auto simp: exclusion_def split: if_splits sum.splits option.splits)
    define h2 where "h2 = setitem (snd (dict_copy h r)) (lim h) ''exclusion_reason'' (PyStr reason)"
    define st2 where "st2 = st\<lparr>hard_excluded := hard_excluded st + 1,
                       exclusion_breakdown := bump (exclusion_breakdown st) reason\<rparr>"
    have step: "filter_loop u rs h2 kept (excl @ [lim h]) st2 = Inr (h', kept', excl', st')"
      using Cons.prems(1) u gr ne by (simp add: h2_def st2_def dict_copy_def)
    have lim2: "lim h2 = Suc (lim h)" by (simp add: h2_def setitem_def dict_copy_def)
    have old2: "\<And>a. a < lim h \<Longrightarrow> objs h2 a = objs h a"
      by (simp add: h2_def setitem_def dict_copy_def)
    have new2: "objs h2 (lim h) = tagged (objs h r) reason"
      by (simp add: h2_def setitem_def dict_copy_def tagged_def)
    have valid2: "\<forall>r\<in>set rs. r < lim h2" using Cons.prems(2) lim2 by auto
    have same: "\<And>x. x \<in> set rs \<Longrightarrow> objs h2 x = objs h x"
      using Cons.prems(2) old2 by auto
    have f1: "filter (\<lambda>r. exclusion u (objs h2 r) = None) rs
              = filter (\<lambda>r. exclusion u (objs h r) = None) rs"
      by (rule filter_cong) (auto simp: same)
    have f2: "filter (\<lambda>r. exclusion u (objs h2 r) \<noteq> None) rs
              = filter (\<lambda>r. exclusion u (objs h r) \<noteq> None) rs"
      by (rule filter_cong) (auto simp: same)
    from Cons.IH[OF step valid2] obtain new where
      a: "lim h2 \<le> lim h'" "\<forall>a<lim h2. objs h' a = objs h2 a"
        "kept' = kept @ filter (\<lambda>r. exclusion u (objs h2 r) = None) rs"
      and b: "excl' = (excl @ [lim h]) @ new" "lim h' = lim h2 + length new"
        "list_all2 (\<lambda>e orig. lim h2 \<le> e \<and> e < lim h'
                \<and> objs h' e = tagged (objs h2 orig) (the (exclusion u (objs h2 orig))))
              new (filter (\<lambda>r. exclusion u (objs h2 r) \<noteq> None) rs)"
        "hard_excluded st' = hard_excluded st2 + int (length new)"
        "sum_list (map snd (exclusion_breakdown st'))
               = sum_list (map snd (exclusion_breakdown st2)) + int (length new)"
      and c: "total_findings st' = total_findings st2"
        "distinct (map fst (exclusion_breakdown st2))
          \<longrightarrow> distinct (map fst (exclusion_breakdown st'))"
        "u \<longrightarrow> (\<forall>r\<in>set rs. \<exists>x. get_exclusion_reason (objs h2 r) = Inr x)"
      by blast
    have l2: "list_all2 (\<lambda>e orig. lim h \<le> e \<and> e < lim h'
                \<and> objs h' e = tagged (objs h orig) (the (exclusion u (objs h orig))))
              new (filter (\<lambda>r. exclusion u (objs h r) \<noteq> None) rs)"
      using b(3) unfolding f2
      by (rule list.rel_mono_strong) (use lim2 same in \<open>auto\<close>)
    have hd: "objs h' (lim h) = tagged (objs h r) (the (exclusion u (objs h r)))"
      using a(2) lim2 new2 Some by simp
    have P1: "lim h \<le> lim h' \<and> (\<forall>a<lim h. objs h' a = objs h a)"
      using a(1,2) lim2 old2 by auto
    have P2: "kept' = kept @ filter (\<lambda>r. exclusion u (objs h r) = None) (r # rs)"
      using a(3) Some f1 by simp
    have P3: "excl' = excl @ (lim h # new) \<and> lim h' = lim h + length (lim h # new)
          \<and> list_all2 (\<lambda>e orig. lim h \<le> e \<and> e < lim h'
                \<and> objs h' e = tagged (objs h orig) (the (exclusion u (objs h orig))))
              (lim h # new) (filter (\<lambda>r. exclusion u (objs h r) \<noteq> None) (r # rs))
          \<and> hard_excluded st' = hard_excluded st + int (length (lim h # new))
          \<and> sum_list (map snd (exclusion_breakdown st'))
               = sum_list (map snd (exclusion_breakdown st)) + int (length (lim h # new))"
      using b l2 hd Some lim2 a(1) by (simp add: st2_def bump_sum)
    have P4: "total_findings st' = total_findings st
     \<and> (distinct (map fst (exclusion_breakdown st))
          \<longrightarrow> distinct (map fst (exclusion_breakdown st')))
     \<and> (u \<longrightarrow> (\<forall>x\<in>set (r # rs). \<exists>y. get_exclusion_reason (objs h x) = Inr y))"
      using c gr same by (auto simp: st2_def bump_distinct)
    from P1 P2 P3 P4 show ?thesis by blast
  qed
qed


lemma str_or_absent_get:
  "str_or_absent f k \<Longrightarrow> \<exists>s. dict_get f k = PyStr s"
  by (auto simp: str_or_absent_def dict_get_def split: option.splits pyval.splits)

lemma get_exclusion_reason_str:
  assumes "dict_get f ''category'' = PyStr c"
    "dict_get f ''description'' = PyStr d" "dict_get f ''file'' = PyStr p"
  shows "\<exists>x. get_exclusion_reason f = Inr x"
  unfolding get_exclusion_reason_def assms pyval.case Let_def
  by (simp only: if_split[of "\<lambda>r. \<exists>x. r = Inr x"] sum.inject simp_thms ex_simps)

lemma get_exclusion_reason_returns:
  assumes "well_formed f"
  shows "\<exists>x. get_exclusion_reason f = Inr x"
proof -
  have "\<exists>s. dict_get f ''category'' = PyStr s"
    by (rule str_or_absent_get) (use assms in \<open>simp only: well_formed_def\<close>)
  then obtain c where c: "dict_get f ''category'' = PyStr c" ..
  have "\<exists>s. dict_get f ''description'' = PyStr s"
    by (rule str_or_absent_get) (use assms in \<open>simp only: well_formed_def\<close>)
  then obtain d where d: "dict_get f ''description'' = PyStr d" ..
  have "\<exists>s. dict_get f ''file'' = PyStr s"
    by (rule str_or_absent_get) (use assms in \<open>simp only: well_formed_def\<close>)
  then obtain p where p: "dict_get f ''file'' = PyStr p" ..
  show ?thesis by (rule get_exclusion_reason_str[OF c d p])
qed

lemma filter_loop_returns:
  "\<forall>r\<in>set rs. r < lim h \<and> well_formed (objs h r)
   \<Longrightarrow> \<exists>out. filter_loop u rs h kept excl st = Inr out"
proof (induction rs arbitrary: h kept excl st)
  case Nil
  then show ?case by simp
next
  case (Cons r rs)
  obtain x where x: "get_exclusion_reason (objs h r) = Inr x"
    using Cons.prems get_exclusion_reason_returns by fastforce
  have keep: "\<exists>out. filter_loop u rs h (kept @ [r]) excl st = Inr out"
    using Cons.IH[of h] Cons.prems by simp
  show ?case
  proof (cases "exclusion u (objs h r)")
    case None
    with x keep show ?thesis
      by (auto simp: exclusion_def split: if_splits option.splits)
  next
    case (Some reason)
    define h2 where "h2 = setitem (snd (dict_copy h r)) (lim h) ''exclusion_reason'' (PyStr reason)"
    have "\<forall>a\<in>set rs. a < lim h2 \<and> well_formed (objs h2 a)"
      using Cons.prems by (auto simp: h2_def setitem_def dict_copy_def)
    from Cons.IH[OF this] Some x show ?thesis
      by (auto simp: exclusion_def h2_def dict_copy_def split: if_splits option.splits)
  qed
qed

lemma filter_findings_run:
  assumes valid: "\<forall>r\<in>set findings. r < lim h"
    and run: "filter_findings u h findings = Inr (h', ok, res, stats)"
  shows "ok"
    and "\<forall>a<lim h. objs h' a = objs h a"
    and "filtered_findings res = filter (\<lambda>r. exclusion u (objs h r) = None) findings"
    and "list_all2 (\<lambda>e orig. lim h \<le> e \<and> e < lim h'
                \<and> objs h' e = tagged (objs h orig) (the (exclusion u (objs h orig))))
           (excluded_findings res) (filter (\<lambda>r. exclusion u (objs h r) \<noteq> None) findings)"
    and "total_findings stats = int (length findings)"
    and "kept_findings stats = int (length (filtered_findings res))"
    and "hard_excluded stats = int (length (excluded_findings res))"
    and "sum_list (map snd (exclusion_breakdown stats)) = hard_excluded stats"
    and "distinct (map fst (exclusion_breakdown stats))"
    and "analysis_summary res =
           \<lparr>summary_total_findings = total_findings stats,
            summary_kept_findings = kept_findings stats,
            summary_excluded_findings = int (length (excluded_findings res)),
            summary_exclusion_breakdown = exclusion_breakdown stats\<rparr>"
    and "u \<longrightarrow> (\<forall>r\<in>set findings. \<exists>x. get_exclusion_reason (objs h r) = Inr x)"
proof -
  define st0 where "st0 = \<lparr>total_findings = int (length findings), hard_excluded = 0,
                   kept_findings = 0, exclusion_breakdown = []\<rparr>"
  obtain kept excl st where
    loop: "filter_loop u findings h [] [] st0 = Inr (h', kept, excl, st)"
    and ok: "ok"
    and res: "res = \<lparr>filtered_findings = kept, excluded_findings = excl,
                analysis_summary =
                  \<lparr>summary_total_findings = total_findings st,
                   summary_kept_findings = int (length kept),
                   summary_excluded_findings = int (length excl),
                   summary_exclusion_breakdown = exclusion_breakdown st\<rparr>\<rparr>"
    and stats: "stats = st\<lparr>kept_findings := int (length kept)\<rparr>"
    using run unfolding filter_findings_def st0_def
    by (auto simp: Let_def split: sum.splits prod.splits)
  note spec = filter_loop_spec[OF loop valid]
  show "ok" by (rule ok)
  show "\<forall>a<lim h. objs h' a = objs h a" using spec by blast
  show "filtered_findings res = filter (\<lambda>r. exclusion u (objs h r) = None) findings"
    using spec by (simp add: res)
  show "list_all2 (\<lambda>e orig. lim h \<le> e \<and> e < lim h'
                \<and> objs h' e = tagged (objs h orig) (the (exclusion u (objs h orig))))
           (excluded_findings res) (filter (\<lambda>r. exclusion u (objs h r) \<noteq> None) findings)"
    using spec by (auto simp: res)
  show "total_findings stats = int (length findings)"
    using spec by (simp add: stats st0_def)
  show "kept_findings stats = int (length (filtered_findings res))"
    by (simp add: stats res)
  show "hard_excluded stats = int (length (excluded_findings res))"
    using spec by (auto simp: stats res st0_def)
  show "sum_list (map snd (exclusion_breakdown stats)) = hard_excluded stats"
    using spec by (auto simp: stats st0_def)
  show "distinct (map fst (exclusion_breakdown stats))"
    using spec by (simp add: stats st0_def)
  show "analysis_summary res =
           \<lparr>summary_total_findings = total_findings stats,
            summary_kept_findings = kept_findings stats,
            summary_excluded_findings = int (length (excluded_findings res)),
            summary_exclusion_breakdown = exclusion_breakdown stats\<rparr>"
    by (simp add: stats res)
  show "u \<longrightarrow> (\<forall>r\<in>set findings. \<exists>x. get_exclusion_reason (objs h r) = Inr x)"
    using spec by blast
qed

lemma filter_findings_returns:
  assumes "\<forall>r\<in>set findings. r < lim h \<and> well_formed (objs h r)"
  shows "\<exists>h' res stats. filter_findings u h findings = Inr (h', True, res, stats)"
proof -
  obtain h' kept excl st where
    "filter_loop u findings h [] []
       \<lparr>total_findings = int (length findings), hard_excluded = 0,
        kept_findings = 0, exclusion_breakdown = []\<rparr> = Inr (h', kept, excl, st)"
    using filter_loop_returns[OF assms] by (metis prod_cases4)
  then show ?thesis by (simp add: filter_findings_def Let_def)
qed


lemma dos_finding_reason:
  "get_exclusion_reason dos_finding = Inr (Some ''excluded_category:dos'')"
  unfolding dos_finding_def by code_simp

lemma sqli_finding_reason: "get_exclusion_reason sqli_finding = Inr None"
  unfolding sqli_finding_def by code_simp

lemma example_run:
  "filter_findings True example_store [0, 1]
     = Inr (example_store_after, True, example_result, example_stats)"
  by (simp add: filter_findings_def example_store_def example_store_after_def
      example_result_def example_stats_def dos_finding_reason sqli_finding_reason
      dict_copy_def setitem_def tagged_def bump_def)


lemma example_valid: "\<forall>r\<in>set [0, 1::nat]. r < lim example_store"
  by (simp add: example_store_def)

lemma dos_well_formed: "well_formed dos_finding"
  unfolding dos_finding_def by code_simp

lemma sqli_well_formed: "well_formed sqli_finding"
  unfolding sqli_finding_def by code_simp

lemma example_well_formed: "\<forall>r\<in>set [0, 1::nat]. well_formed (objs example_store r)"
  by (simp add: example_store_def dos_well_formed sqli_well_formed)

text \<open>
  C10. The statistics agree with each other and with the result: \<open>hard_excluded\<close> and
  \<open>kept_findings\<close> add up to \<open>total_findings\<close>, the values of \<open>exclusion_breakdown\<close>
  (a dict: its keys are distinct) add up to \<open>hard_excluded\<close>, and the counts of
  \<open>analysis_summary\<close> are the lengths of \<open>filtered_findings\<close> and \<open>excluded_findings\<close>.
  The call returns on every list of findings of the documented shape.
\<close>

theorem stats_consistent:
  assumes "\<forall>r\<in>set findings. r < lim h"
  shows "((\<forall>r\<in>set findings. well_formed (objs h r))
            \<longrightarrow> (\<exists>out. filter_findings u h findings = Inr out))
     \<and> (filter_findings u h findings = Inr (h', ok, res, stats) \<longrightarrow>
          hard_excluded stats + kept_findings stats = total_findings stats
          \<and> sum_list (map snd (exclusion_breakdown stats)) = hard_excluded stats
          \<and> distinct (map fst (exclusion_breakdown stats))
          \<and> summary_total_findings (analysis_summary res) = total_findings stats
          \<and> summary_kept_findings (analysis_summary res)
               = int (length (filtered_findings res))
          \<and> summary_excluded_findings (analysis_summary res)
               = int (length (excluded_findings res))
          \<and> summary_exclusion_breakdown (analysis_summary res) = exclusion_breakdown stats
          \<and> kept_findings stats = int (length (filtered_findings res))
          \<and> hard_excluded stats = int (length (excluded_findings res)))"
proof (intro conjI impI)
  assume "\<forall>r\<in>set findings. well_formed (objs h r)"
  with assms have "\<forall>r\<in>set findings. r < lim h \<and> well_formed (objs h r)" by blast
  from filter_findings_returns[OF this] show "\<exists>out. filter_findings u h findings = Inr out"
    by blast
next
  assume run: "filter_findings u h findings = Inr (h', ok, res, stats)"
  note facts = filter_findings_run[OF assms run]
  have len: "length (filter (\<lambda>r. exclusion u (objs h r) = None) findings)
        + length (filter (\<lambda>r. exclusion u (objs h r) \<noteq> None) findings) = length findings"
    using sum_length_filter_compl[of "\<lambda>r. exclusion u (objs h r) = None" findings] by simp
  have le: "length (excluded_findings res)
        = length (filter (\<lambda>r. exclusion u (objs h r) \<noteq> None) findings)"
    using facts(4) by (rule list_all2_lengthD)
  show "hard_excluded stats + kept_findings stats = total_findings stats"
    using len le facts(3,5,6,7) by simp
  show "sum_list (map snd (exclusion_breakdown stats)) = hard_excluded stats"
    by (rule facts(8))
  show "distinct (map fst (exclusion_breakdown stats))" by (rule facts(9))
  show "summary_total_findings (analysis_summary res) = total_findings stats"
    by (simp add: facts(10))
  show "summary_kept_findings (analysis_summary res) = int (length (filtered_findings res))"
    by (simp add: facts(10) facts(6))
  show "summary_excluded_findings (analysis_summary res)
          = int (length (excluded_findings res))"
    by (simp add: facts(10))
  show "summary_exclusion_breakdown (analysis_summary res) = exclusion_breakdown stats"
    by (simp add: facts(10))
  show "kept_findings stats = int (length (filtered_findings res))" by (rule facts(6))
  show "hard_excluded stats = int (length (excluded_findings res))" by (rule facts(7))
qed

theorem stats_consistent_witness:
  "filter_findings True example_store [0, 1]
     = Inr (example_store_after, True, example_result, example_stats)
   \<and> hard_excluded example_stats + kept_findings example_stats
       = total_findings example_stats
   \<and> sum_list (map snd (exclusion_breakdown example_stats)) = hard_excluded example_stats
   \<and> summary_kept_findings (analysis_summary example_result)
       = int (length (filtered_findings example_result))
   \<and> summary_excluded_findings (analysis_summary example_result)
       = int (length (excluded_findings example_result))"
  using stats_consistent[OF example_valid, THEN conjunct2, THEN mp, OF example_run]
    example_run
  by simp

section \<open>Partition of the input\<close>

text \<open>
  C1, as amended. The objects in \<open>kept\<close> are input objects; the objects in \<open>excluded\<close>
  are not: each is a fresh copy of one input finding (its original), with
  \<open>exclusion_reason\<close> set. \<open>kept\<close> together with the originals of \<open>excluded\<close> is the
  input, every input occurrence counted once, no object is in both sequences, and
  \<open>len(kept) + len(excluded)\<close> is \<open>total_findings\<close>. The call returns on every list of
  findings of the documented shape.
\<close>

theorem filter_findings_partition:
  assumes "\<forall>r\<in>set findings. r < lim h"
  shows "((\<forall>r\<in>set findings. well_formed (objs h r))
            \<longrightarrow> (\<exists>out. filter_findings u h findings = Inr out))
     \<and> (filter_findings u h findings = Inr (h', ok, res, stats) \<longrightarrow>
          (\<exists>origs. mset (filtered_findings res) + mset origs = mset findings
             \<and> list_all2 (\<lambda>e orig. e \<notin> set findings
                   \<and> (\<exists>reason. objs h' e = tagged (objs h orig) reason))
                 (excluded_findings res) origs)
          \<and> set (filtered_findings res) \<inter> set (excluded_findings res) = {}
          \<and> int (length (filtered_findings res)) + int (length (excluded_findings res))
               = total_findings stats)"
proof (intro conjI impI)
  assume "\<forall>r\<in>set findings. well_formed (objs h r)"
  with assms have "\<forall>r\<in>set findings. r < lim h \<and> well_formed (objs h r)" by blast
  from filter_findings_returns[OF this] show "\<exists>out. filter_findings u h findings = Inr out"
    by blast
next
  assume run: "filter_findings u h findings = Inr (h', ok, res, stats)"
  note facts = filter_findings_run[OF assms run]
  let ?P = "\<lambda>r. exclusion u (objs h r) = None"
  let ?origs = "filter (\<lambda>r. exclusion u (objs h r) \<noteq> None) findings"
  have fresh: "list_all2 (\<lambda>e orig. e \<notin> set findings
                   \<and> (\<exists>reason. objs h' e = tagged (objs h orig) reason))
                 (excluded_findings res) ?origs"
    using facts(4) by (rule list_all2_mono) (use assms in auto)
  have part: "mset (filtered_findings res) + mset ?origs = mset findings"
    unfolding facts(3) by (simp add: mset_filter)
  from part fresh
  show "\<exists>origs. mset (filtered_findings res) + mset origs = mset findings
             \<and> list_all2 (\<lambda>e orig. e \<notin> set findings
                   \<and> (\<exists>reason. objs h' e = tagged (objs h orig) reason))
                 (excluded_findings res) origs"
    by blast
  have "\<forall>e\<in>set (excluded_findings res). lim h \<le> e"
    using facts(4) by (auto simp: list_all2_conv_all_nth in_set_conv_nth)
  moreover have "\<forall>r\<in>set (filtered_findings res). r < lim h"
    using assms unfolding facts(3) by simp
  ultimately show "set (filtered_findings res) \<inter> set (excluded_findings res) = {}"
    by fastforce
  have len: "length (filter ?P findings) + length ?origs = length findings"
    using sum_length_filter_compl[of ?P findings] by simp
  have le: "length (excluded_findings res) = length ?origs"
    using facts(4) by (rule list_all2_lengthD)
  show "int (length (filtered_findings res)) + int (length (excluded_findings res))
               = total_findings stats"
    using len le facts(3,5) by simp
qed

lemma example_store_after_2:
  "objs example_store_after 2 = tagged dos_finding ''excluded_category:dos''"
  by (simp add: example_store_after_def)

lemma tagged_dos_neq:
  "tagged dos_finding ''excluded_category:dos'' \<noteq> dos_finding"
  "tagged dos_finding ''excluded_category:dos'' \<noteq> sqli_finding"
proof -
  have a: "dos_finding ''exclusion_reason'' = None"
    unfolding dos_finding_def by code_simp
  have b: "sqli_finding ''exclusion_reason'' = None"
    unfolding sqli_finding_def by code_simp
  have c: "tagged f r ''exclusion_reason'' \<noteq> None" for f :: "unit finding" and r
    by (simp only: tagged_def fun_upd_same) simp
  show "tagged dos_finding ''excluded_category:dos'' \<noteq> dos_finding"
    using a c by metis
  show "tagged dos_finding ''excluded_category:dos'' \<noteq> sqli_finding"
    using b c by metis
qed

theorem filter_findings_partition_witness:
  "filter_findings True example_store [0, 1]
     = Inr (example_store_after, True, example_result, example_stats)
   \<and> (\<exists>origs. mset (filtered_findings example_result) + mset origs = mset [0, 1]
         \<and> list_all2 (\<lambda>e orig. e \<notin> set [0, 1]
               \<and> (\<exists>reason. objs example_store_after e
                     = tagged (objs example_store orig) reason))
             (excluded_findings example_result) origs)
   \<and> int (length (filtered_findings example_result))
        + int (length (excluded_findings example_result)) = total_findings example_stats"
  using filter_findings_partition[OF example_valid, THEN conjunct2, THEN mp, OF example_run]
    example_run
  by blast

text \<open>
  On the example scenario \<open>kept\<close> and \<open>excluded\<close> together are not the input, neither as
  objects nor as values: the excluded entry is the tagged copy.
\<close>

theorem partition_by_identity_counterexample:
  "filter_findings True example_store [0, 1]
     = Inr (example_store_after, True, example_result, example_stats)
   \<and> set (filtered_findings example_result) \<union> set (excluded_findings example_result)
       \<noteq> set [0, 1]
   \<and> set (map (objs example_store_after)
            (filtered_findings example_result @ excluded_findings example_result))
       \<noteq> set (map (objs example_store) [0, 1])"
proof -
  have "set (filtered_findings example_result) \<union> set (excluded_findings example_result)
       \<noteq> set [0, 1]"
  proof -
    have "(2::nat) \<in> set (filtered_findings example_result)
            \<union> set (excluded_findings example_result)"
      by (simp add: example_result_def)
    moreover have "(2::nat) \<notin> set [0, 1]" by simp
    ultimately show ?thesis by metis
  qed
  moreover have "objs example_store_after 2 \<notin> set (map (objs example_store) [0, 1])"
    using tagged_dos_neq by (simp add: example_store_after_2 example_store_def)
  then have "set (map (objs example_store_after)
            (filtered_findings example_result @ excluded_findings example_result))
       \<noteq> set (map (objs example_store) [0, 1])"
    unfolding example_result_def by (metis UnCI filter_result.select_convs(1,2) list.set_intros(1) set_append set_map image_eqI)
  ultimately show ?thesis using example_run by blast
qed

section \<open>Filtering again\<close>

lemma filter_loop_kept_again:
  assumes "\<forall>r\<in>set rs. exclusion u (objs h r) = None
             \<and> (u \<longrightarrow> (\<exists>x. get_exclusion_reason (objs h r) = Inr x))"
  shows "filter_loop u rs h kept excl st = Inr (h, kept @ rs, excl, st)"
proof (cases u)
  case False
  then show ?thesis by (simp add: filter_loop_off)
next
  case True
  have "\<forall>r\<in>set rs. get_exclusion_reason (objs h r) = Inr None
      \<or> get_exclusion_reason (objs h r) = Inr (Some [])"
  proof
    fix r assume r: "r \<in> set rs"
    with assms True obtain x where x: "get_exclusion_reason (objs h r) = Inr x" by blast
    from assms r have "exclusion u (objs h r) = None" by blast
    with x True show "get_exclusion_reason (objs h r) = Inr None
      \<or> get_exclusion_reason (objs h r) = Inr (Some [])"
      by (cases x) (auto simp: exclusion_def split: if_splits)
  qed
  then show ?thesis by (rule filter_loop_keep_all)
qed

text \<open>
  C4. Filtering the kept sequence again, with the same \<open>use_hard_exclusions\<close> and in the
  store the first call left, returns that same sequence as \<open>kept\<close>, excludes nothing and
  leaves the store as it is.
\<close>

theorem filter_idempotent:
  assumes "\<forall>r\<in>set findings. r < lim h"
    and "filter_findings u h findings = Inr (h', ok, res, stats)"
  shows "\<exists>res2 stats2.
           filter_findings u h' (filtered_findings res) = Inr (h', True, res2, stats2)
           \<and> filtered_findings res2 = filtered_findings res
           \<and> excluded_findings res2 = []
           \<and> hard_excluded stats2 = 0
           \<and> exclusion_breakdown stats2 = []"
proof -
  note facts = filter_findings_run[OF assms]
  have "\<forall>r\<in>set (filtered_findings res). exclusion u (objs h' r) = None
             \<and> (u \<longrightarrow> (\<exists>x. get_exclusion_reason (objs h' r) = Inr x))"
  proof
    fix r assume "r \<in> set (filtered_findings res)"
    then have r: "r \<in> set findings" "exclusion u (objs h r) = None"
      unfolding facts(3) by simp_all
    with assms(1) facts(2) have "objs h' r = objs h r" by blast
    with r facts(11)
    show "exclusion u (objs h' r) = None
             \<and> (u \<longrightarrow> (\<exists>x. get_exclusion_reason (objs h' r) = Inr x))"
      by simp
  qed
  from filter_loop_kept_again[OF this]
  show ?thesis by (simp add: filter_findings_def)
qed

theorem filter_idempotent_witness:
  "\<exists>res2 stats2.
     filter_findings True example_store_after (filtered_findings example_result)
       = Inr (example_store_after, True, res2, stats2)
     \<and> filtered_findings res2 = filtered_findings example_result
     \<and> excluded_findings res2 = []
     \<and> hard_excluded stats2 = 0
     \<and> exclusion_breakdown stats2 = []"
  by (rule filter_idempotent[OF example_valid example_run])

section \<open>Excluded findings are copies\<close>

text \<open>
  C9. Every entry of \<open>excluded\<close> is a new object (it did not exist when the call began),
  made from one input finding, in order: it carries \<open>exclusion_reason\<close>, set to the reason
  \<open>get_exclusion_reason\<close> gives for that finding, and agrees with the finding on every
  other key. Every object that existed when the call began, so every input finding, has
  the contents it had.
\<close>

theorem excluded_is_tagged_copy:
  assumes "\<forall>r\<in>set findings. r < lim h"
    and "filter_findings u h findings = Inr (h', ok, res, stats)"
  shows "list_all2
           (\<lambda>e orig. lim h \<le> e
              \<and> (\<exists>reason. get_exclusion_reason (objs h orig) = Inr (Some reason)
                    \<and> objs h' e ''exclusion_reason'' = Some (PyStr reason))
              \<and> (\<forall>k. k \<noteq> ''exclusion_reason'' \<longrightarrow> objs h' e k = objs h orig k))
           (excluded_findings res)
           (filter (\<lambda>r. exclusion u (objs h r) \<noteq> None) findings)
         \<and> (\<forall>r<lim h. objs h' r = objs h r)"
proof
  note facts = filter_findings_run[OF assms]
  show "\<forall>r<lim h. objs h' r = objs h r" by (rule facts(2))
  have reason: "get_exclusion_reason f = Inr (Some (the (exclusion u f)))"
    if "exclusion u f \<noteq> None" for f :: "'a finding"
    using that by (auto simp: exclusion_def split: if_splits sum.splits option.splits)
  show "list_all2
           (\<lambda>e orig. lim h \<le> e
              \<and> (\<exists>reason. get_exclusion_reason (objs h orig) = Inr (Some reason)
                    \<and> objs h' e ''exclusion_reason'' = Some (PyStr reason))
              \<and> (\<forall>k. k \<noteq> ''exclusion_reason'' \<longrightarrow> objs h' e k = objs h orig k))
           (excluded_findings res)
           (filter (\<lambda>r. exclusion u (objs h r) \<noteq> None) findings)"
    using facts(4)
  proof (rule list.rel_mono_strong)
    fix e orig
    assume "orig \<in> set (filter (\<lambda>r. exclusion u (objs h r) \<noteq> None) findings)"
      and eo: "lim h \<le> e \<and> e < lim h'
               \<and> objs h' e = tagged (objs h orig) (the (exclusion u (objs h orig)))"
    then have "exclusion u (objs h orig) \<noteq> None" by simp
    from reason[OF this] eo
    show "lim h \<le> e
              \<and> (\<exists>reason. get_exclusion_reason (objs h orig) = Inr (Some reason)
                    \<and> objs h' e ''exclusion_reason'' = Some (PyStr reason))
              \<and> (\<forall>k. k \<noteq> ''exclusion_reason'' \<longrightarrow> objs h' e k = objs h orig k)"
      by (simp add: tagged_def)
  qed
qed

theorem excluded_is_tagged_copy_witness:
  "list_all2
     (\<lambda>e orig. lim example_store \<le> e
        \<and> (\<exists>reason. get_exclusion_reason (objs example_store orig) = Inr (Some reason)
              \<and> objs example_store_after e ''exclusion_reason'' = Some (PyStr reason))
        \<and> (\<forall>k. k \<noteq> ''exclusion_reason''
              \<longrightarrow> objs example_store_after e k = objs example_store orig k))
     (excluded_findings example_result)
     (filter (\<lambda>r. exclusion True (objs example_store r) \<noteq> None) [0, 1])
   \<and> excluded_findings example_result = [2]
   \<and> objs example_store_after 0 = objs example_store 0
   \<and> objs example_store_after 1 = objs example_store 1"
proof -
  note w = excluded_is_tagged_copy[OF example_valid example_run]
  have lim: "lim example_store = 2" by (simp add: example_store_def)
  have old: "\<forall>r<2. objs example_store_after r = objs example_store r"
    using w[THEN conjunct2] unfolding lim .
  have a: "objs example_store_after 0 = objs example_store 0"
    using old[rule_format, of 0] by simp
  have b: "objs example_store_after 1 = objs example_store 1"
    using old[rule_format, of 1] by simp
  have c: "excluded_findings example_result = [2]"
    by (simp add: example_result_def)
  show ?thesis
    by (rule conjI[OF w[THEN conjunct1] conjI[OF c conjI[OF a b]]])
qed

section \<open>The example scenario\<close>

text \<open>
  C6. On the list of the \<open>dos\<close> finding and the \<open>sqli\<close> finding the filter returns the
  \<open>sqli\<close> finding alone in \<open>kept\<close>, and in \<open>excluded\<close> one new finding, the \<open>dos\<close> finding
  with \<open>exclusion_reason\<close> set to \<open>excluded_category:dos\<close>; the statistics are
  \<open>total_findings = 2\<close>, \<open>kept_findings = 1\<close> and \<open>hard_excluded = 1\<close>.
\<close>

theorem example_scenario:
  "objs example_store 0 = dos_finding
   \<and> objs example_store 1 = sqli_finding
   \<and> filter_findings True example_store [0, 1]
       = Inr (example_store_after, True, example_result, example_stats)
   \<and> filtered_findings example_result = [1]
   \<and> objs example_store_after 1 = sqli_finding
   \<and> excluded_findings example_result = [2]
   \<and> objs example_store_after 2
       = dos_finding(''exclusion_reason'' \<mapsto> PyStr ''excluded_category:dos'')
   \<and> total_findings example_stats = 2
   \<and> kept_findings example_stats = 1
   \<and> hard_excluded example_stats = 1"
  using example_run
  by (simp add: example_store_def example_store_after_def example_result_def
      example_stats_def tagged_def)

section \<open>Findings with missing fields\<close>

lemma empty_category: "normalize_category [] \<notin> EXCLUDED_CATEGORIES"
  by code_simp

lemma empty_description:
  "\<not> search DOS_PATTERNS []" "\<not> search RATE_LIMITING_PATTERNS []"
  "\<not> search RESOURCE_PATTERNS []" "\<not> search OPEN_REDIRECT_PATTERNS []"
  "\<not> search REGEX_INJECTION_PATTERNS []" "\<not> search LOG_SPOOFING_PATTERNS []"
  "\<not> search MISSING_AUDIT_LOG_PATTERNS []" "\<not> search HARDENING_PATTERNS []"
  "\<not> search MEMORY_SAFETY_PATTERNS []"
  by code_simp+

lemma empty_file:
  "\<not> is_test_file []"
  "\<not> list_ex (endswith []) [''.md'', ''.rst'', ''.txt'', ''.adoc'']"
  by code_simp+

lemma get_exclusion_reason_empty:
  assumes "dict_get f ''category'' = PyStr []" "dict_get f ''description'' = PyStr []"
    "dict_get f ''file'' = PyStr []"
  shows "get_exclusion_reason f = Inr None"
  unfolding get_exclusion_reason_def assms pyval.case Let_def
  by (simp only: empty_category empty_description empty_file if_False simp_thms)

lemma filter_findings_single_kept:
  assumes "get_exclusion_reason (objs h r) = Inr None"
  shows "filter_findings u h [r] =
     Inr (h, True,
          \<lparr>filtered_findings = [r], excluded_findings = [],
           analysis_summary =
             \<lparr>summary_total_findings = 1, summary_kept_findings = 1,
              summary_excluded_findings = 0, summary_exclusion_breakdown = []\<rparr>\<rparr>,
          \<lparr>total_findings = 1, hard_excluded = 0, kept_findings = 1,
           exclusion_breakdown = []\<rparr>)"
  using filter_loop_keep_all[of "[r]" h u "[]" "[]"] assms
  by (simp add: filter_findings_def)

text \<open>
  C8. A finding without \<open>category\<close>, \<open>description\<close> and \<open>file\<close> is read as if the three
  were empty strings, no rule gives a reason for it, and the filter keeps it: the very
  object goes to \<open>kept\<close>, nothing is excluded, and the store is unchanged.
\<close>

theorem malformed_finding_kept:
  assumes "objs h r ''category'' = None" and "objs h r ''description'' = None"
    and "objs h r ''file'' = None"
  shows "dict_get (objs h r) ''category'' = PyStr []
     \<and> dict_get (objs h r) ''description'' = PyStr []
     \<and> dict_get (objs h r) ''file'' = PyStr []
     \<and> get_exclusion_reason (objs h r) = Inr None
     \<and> (\<exists>res stats. filter_findings u h [r] = Inr (h, True, res, stats)
           \<and> filtered_findings res = [r] \<and> excluded_findings res = []
           \<and> hard_excluded stats = 0)"
proof -
  have g: "dict_get (objs h r) ''category'' = PyStr []"
    "dict_get (objs h r) ''description'' = PyStr []"
    "dict_get (objs h r) ''file'' = PyStr []"
    by (simp_all only: dict_get_def assms option.case)
  have n: "get_exclusion_reason (objs h r) = Inr None"
    by (rule get_exclusion_reason_empty[OF g])
  show ?thesis
    using g n by (simp add: filter_findings_single_kept[OF n])
qed

theorem malformed_finding_kept_witness:
  "get_exclusion_reason (Map.empty :: unit finding) = Inr None
   \<and> (\<exists>res stats.
         filter_findings True \<lparr>objs = (\<lambda>_. Map.empty :: unit finding), lim = 1\<rparr> [0]
           = Inr (\<lparr>objs = (\<lambda>_. Map.empty), lim = 1\<rparr>, True, res, stats)
         \<and> filtered_findings res = [0] \<and> excluded_findings res = []
         \<and> hard_excluded stats = 0)"
  using malformed_finding_kept[of "\<lparr>objs = (\<lambda>_. Map.empty :: unit finding), lim = 1\<rparr>" 0 True]
  by simp


section \<open>Category matching\<close>

lemma get_exclusion_reason_cong:
  assumes "dict_get f1 ''category'' = PyStr c1" and "dict_get f2 ''category'' = PyStr c2"
    and "normalize_category c1 = normalize_category c2"
    and "dict_get f1 ''description'' = dict_get f2 ''description''"
    and "dict_get f1 ''file'' = dict_get f2 ''file''"
  shows "get_exclusion_reason f1 = get_exclusion_reason f2"
  by (simp only: get_exclusion_reason_def assms pyval.case Let_def)

lemma filter_findings_single_excluded:
  assumes "get_exclusion_reason (objs h r) = Inr (Some reason)" and "reason \<noteq> []"
  shows "decision (filter_findings True h [r]) =
     Inr (0, [Some (PyStr reason)],
          \<lparr>total_findings = 1, hard_excluded = 1, kept_findings = 0,
           exclusion_breakdown = [(reason, 1)]\<rparr>)"
  using assms
  by (simp add: decision_def filter_findings_def dict_copy_def setitem_def bump_def)

lemma decision_single:
  "decision (filter_findings u h [r]) =
     (if u then
        (case get_exclusion_reason (objs h r) of
           Inl e \<Rightarrow> Inl e
         | Inr None \<Rightarrow>
             Inr (1, [], \<lparr>total_findings = 1, hard_excluded = 0, kept_findings = 1,
                          exclusion_breakdown = []\<rparr>)
         | Inr (Some reason) \<Rightarrow>
             if reason \<noteq> [] then
               Inr (0, [Some (PyStr reason)],
                    \<lparr>total_findings = 1, hard_excluded = 1, kept_findings = 0,
                     exclusion_breakdown = [(reason, 1)]\<rparr>)
             else
               Inr (1, [], \<lparr>total_findings = 1, hard_excluded = 0, kept_findings = 1,
                            exclusion_breakdown = []\<rparr>))
      else Inr (1, [], \<lparr>total_findings = 1, hard_excluded = 0, kept_findings = 1,
                        exclusion_breakdown = []\<rparr>))"
proof (cases u)
  case False
  then show ?thesis
    by (simp add: decision_def filter_findings_def)
next
  case True
  show ?thesis
  proof (cases "get_exclusion_reason (objs h r)")
    case (Inl e)
    with True show ?thesis by (simp add: decision_def filter_findings_def)
  next
    case (Inr x)
    show ?thesis
    proof (cases x)
      case None
      with Inr True show ?thesis by (simp add: decision_def filter_findings_def)
    next
      case (Some reason)
      show ?thesis
      proof (cases "reason = []")
        case True
        with Some Inr \<open>u\<close> show ?thesis by (simp add: decision_def filter_findings_def)
      next
        case False
        with Some Inr \<open>u\<close> filter_findings_single_excluded[of h r reason]
        show ?thesis by simp
      qed
    qed
  qed
qed

text \<open>
  C5. Two findings that differ in \<open>category\<close> only, by categories that are equal after
  lowercasing and replacing hyphens with underscores (as \<open>Rate-Limiting\<close> and
  \<open>rate_limiting\<close> are), get the same answer from \<open>get_exclusion_reason\<close>, and
  \<open>filter_findings\<close> decides the same on each: both kept or both excluded, with the same
  \<open>exclusion_reason\<close> on the excluded copy and the same statistics.
\<close>

theorem category_matching_normalized:
  assumes "objs h r1 ''category'' = Some (PyStr c1)"
    and "objs h r2 = (objs h r1)(''category'' \<mapsto> PyStr c2)"
    and "normalize_category c1 = normalize_category c2"
  shows "get_exclusion_reason (objs h r1) = get_exclusion_reason (objs h r2)
     \<and> decision (filter_findings u h [r1]) = decision (filter_findings u h [r2])
     \<and> normalize_category ''Rate-Limiting'' = normalize_category ''rate_limiting''"
proof -
  have c1: "dict_get (objs h r1) ''category'' = PyStr c1"
    by (simp only: dict_get_def assms(1) option.case)
  have c2: "dict_get (objs h r2) ''category'' = PyStr c2"
    by (simp only: dict_get_def assms(2) fun_upd_same option.case)
  have d: "dict_get (objs h r1) ''description'' = dict_get (objs h r2) ''description''"
    unfolding dict_get_def assms(2) by simp
  have f: "dict_get (objs h r1) ''file'' = dict_get (objs h r2) ''file''"
    unfolding dict_get_def assms(2) by simp
  have eq: "get_exclusion_reason (objs h r1) = get_exclusion_reason (objs h r2)"
    by (rule get_exclusion_reason_cong[OF c1 c2 assms(3) d f])
  have n: "normalize_category ''Rate-Limiting'' = normalize_category ''rate_limiting''"
    by code_simp
  have "decision (filter_findings u h [r1]) = decision (filter_findings u h [r2])"
    by (simp only: decision_single eq)
  with eq n show ?thesis by blast
qed

lemma rate_store_reason:
  "get_exclusion_reason (objs rate_store 0) = Inr (Some ''excluded_category:rate_limiting'')"
  unfolding rate_store_def by code_simp

theorem category_matching_normalized_witness:
  "get_exclusion_reason (objs rate_store 0) = get_exclusion_reason (objs rate_store 1)
   \<and> get_exclusion_reason (objs rate_store 0)
       = Inr (Some ''excluded_category:rate_limiting'')
   \<and> decision (filter_findings True rate_store [0])
       = decision (filter_findings True rate_store [1])"
proof -
  have a: "objs rate_store 0 ''category'' = Some (PyStr ''Rate-Limiting'')"
    by (simp add: rate_store_def)
  have b: "objs rate_store 1
             = (objs rate_store 0)(''category'' \<mapsto> PyStr ''rate_limiting'')"
    by (simp add: rate_store_def)
  have c: "normalize_category ''Rate-Limiting'' = normalize_category ''rate_limiting''"
    by code_simp
  note w = category_matching_normalized[OF a b c, of True]
  show ?thesis
    by (rule conjI[OF w[THEN conjunct1] conjI[OF rate_store_reason w[THEN conjunct2, THEN conjunct1]]])
qed

section \<open>The memory-safety rule\<close>

lemma startswith_prefix: "startswith s p \<longleftrightarrow> prefix p s"
  by (induction s p rule: startswith.induct) auto

lemma endswith_suffix: "endswith s x \<longleftrightarrow> suffix x s"
  by (simp add: endswith_def startswith_prefix suffix_to_prefix)

lemma suffix_last: "suffix x s \<Longrightarrow> x \<noteq> [] \<Longrightarrow> s \<noteq> [] \<and> last s = last x"
  by (auto simp: suffix_def)

lemma re_search_NoneI:
  "(\<And>t. suffix t s \<Longrightarrow> match_alts ic r t = None) \<Longrightarrow> re_search ic r s = None"
proof (induction s)
  case Nil
  then show ?case by simp
next
  case (Cons c cs)
  have "match_alts ic r (c # cs) = None" by (rule Cons.prems) simp
  moreover have "re_search ic r cs = None"
    by (rule Cons.IH) (simp add: Cons.prems suffix_Cons)
  ultimately show ?case by simp
qed

lemma re_search_suffixI:
  "match_alts ic r t \<noteq> None \<Longrightarrow> re_search ic r (q @ t) \<noteq> None"
proof (induction q)
  case Nil
  then show ?case by (cases t) (auto split: option.splits)
next
  case (Cons c q)
  then show ?case by (auto split: option.splits)
qed

lemma match_lit:
  "match_here ic (Lit p # ps) s =
     (case s of [] \<Rightarrow> None | c # cs \<Rightarrow> if lit_eq ic p c then match_here ic ps cs else None)"
  by (cases s) simp_all

lemma safe_lang_match_last:
  assumes "match_alts True MEMORY_SAFE_LANGS t \<noteq> None"
  shows "t \<noteq> [] \<and> last t \<noteq> CHR ''y''"
proof -
  have y: "py_lower_char (CHR ''s'') \<noteq> py_lower_char (CHR ''y'')"
    "py_lower_char (CHR ''o'') \<noteq> py_lower_char (CHR ''y'')"
    "newline \<noteq> CHR ''y''"
    by code_simp+
  from assms show ?thesis
    unfolding MEMORY_SAFE_LANGS_def
    by (auto simp: match_lit lit_eq_def y split: list.splits if_splits option.splits)
qed

lemma py_not_safe_lang:
  assumes "endswith p ''.py''"
  shows "\<not> search MEMORY_SAFE_LANGS p"
proof -
  from assms have p: "p \<noteq> [] \<and> last p = CHR ''y''"
    using suffix_last[of "''.py''" p] by (simp add: endswith_suffix)
  have "re_search True MEMORY_SAFE_LANGS p = None"
  proof (rule re_search_NoneI)
    fix t assume t: "suffix t p"
    show "match_alts True MEMORY_SAFE_LANGS t = None"
    proof (rule ccontr)
      assume "match_alts True MEMORY_SAFE_LANGS t \<noteq> None"
      then have "t \<noteq> [] \<and> last t \<noteq> CHR ''y''" by (rule safe_lang_match_last)
      with suffix_last[OF t] p show False by simp
    qed
  qed
  then show ?thesis by (simp add: search_def)
qed

lemma rs_safe_lang:
  assumes "endswith p ''.rs''"
  shows "search MEMORY_SAFE_LANGS p"
proof -
  from assms obtain q where q: "p = q @ ''.rs''"
    by (auto simp: endswith_suffix suffix_def)
  have "match_alts True MEMORY_SAFE_LANGS ''.rs'' \<noteq> None" by code_simp
  from re_search_suffixI[OF this] show ?thesis by (simp add: search_def q)
qed

lemma py_not_documentation:
  assumes "endswith p ''.py''"
  shows "\<not> list_ex (endswith p) [''.md'', ''.rst'', ''.txt'', ''.adoc'']"
proof -
  from assms have p: "last p = CHR ''y''"
    using suffix_last[of "''.py''" p] by (simp add: endswith_suffix)
  have "\<not> endswith p x" if "x \<noteq> []" "last x \<noteq> CHR ''y''" for x
    using suffix_last[of x p] that p by (auto simp: endswith_suffix)
  then show ?thesis by simp
qed


lemma reason_after_earlier_rules:
  assumes "dict_get f ''category'' = PyStr c" and "dict_get f ''description'' = PyStr d"
    and "dict_get f ''file'' = PyStr p" and "\<not> earlier_rule_fires c d"
  shows "get_exclusion_reason f =
     (if search MEMORY_SAFETY_PATTERNS d \<and> search MEMORY_SAFE_LANGS p
        then Inr (Some ''memory_safety_in_safe_language'')
      else if is_test_file p then Inr (Some ''test_file_only'')
      else if list_ex (endswith p) [''.md'', ''.rst'', ''.txt'', ''.adoc'']
        then Inr (Some ''documentation_file'')
      else Inr None)"
proof -
  from assms(4) have no:
    "normalize_category c \<notin> EXCLUDED_CATEGORIES"
    "\<not> search DOS_PATTERNS d" "\<not> search RATE_LIMITING_PATTERNS d"
    "\<not> search RESOURCE_PATTERNS d" "\<not> search OPEN_REDIRECT_PATTERNS d"
    "\<not> search REGEX_INJECTION_PATTERNS d" "\<not> search LOG_SPOOFING_PATTERNS d"
    "\<not> search MISSING_AUDIT_LOG_PATTERNS d" "\<not> search HARDENING_PATTERNS d"
    unfolding earlier_rule_fires_def by blast+
  show ?thesis
    by (simp only: get_exclusion_reason_def assms(1-3) pyval.case Let_def no if_False)
qed

lemma memory_safety_reason_only:
  assumes "get_exclusion_reason g = Inr (Some ''memory_safety_in_safe_language'')"
  shows "\<exists>d p. dict_get g ''description'' = PyStr d \<and> dict_get g ''file'' = PyStr p
           \<and> search MEMORY_SAFETY_PATTERNS d \<and> search MEMORY_SAFE_LANGS p"
proof (cases "dict_get g ''category''")
  case (PyOther x)
  with assms show ?thesis by (simp add: get_exclusion_reason_def)
next
  case c: (PyStr c)
  show ?thesis
  proof (cases "dict_get g ''description''")
    case (PyOther x)
    with assms c show ?thesis
      by (simp add: get_exclusion_reason_def Let_def split: if_splits)
  next
    case d: (PyStr d)
    show ?thesis
    proof (cases "dict_get g ''file''")
      case (PyOther x)
      with assms c d show ?thesis
        by (simp add: get_exclusion_reason_def Let_def split: if_splits)
    next
      case p: (PyStr p)
      with assms c d show ?thesis
        by (simp add: get_exclusion_reason_def Let_def split: if_splits)
    qed
  qed
qed


text \<open>
  C3, as amended. Take a finding whose description matches a memory-safety phrase and
  for which no earlier rule fires (its category is not an excluded one and its
  description matches none of the eight patterns tried first). If its file ends in
  \<open>.py\<close> and is not a test file, no rule gives a reason and the finding is kept; if its
  file ends in \<open>.rs\<close>, the reason is \<open>memory_safety_in_safe_language\<close>. And whenever
  that reason is given, the description matches a memory-safety phrase and the file
  matches the pattern of the memory-safe languages.
\<close>

theorem memory_safety_needs_both:
  assumes "dict_get f ''category'' = PyStr c" and "dict_get f ''description'' = PyStr d"
    and "dict_get f ''file'' = PyStr p"
    and "search MEMORY_SAFETY_PATTERNS d" and "\<not> earlier_rule_fires c d"
  shows "(endswith p ''.py'' \<and> \<not> is_test_file p \<longrightarrow> get_exclusion_reason f = Inr None)
     \<and> (endswith p ''.rs''
          \<longrightarrow> get_exclusion_reason f = Inr (Some ''memory_safety_in_safe_language''))
     \<and> (get_exclusion_reason g = Inr (Some ''memory_safety_in_safe_language'')
          \<longrightarrow> (\<exists>d' p'. dict_get g ''description'' = PyStr d'
                 \<and> dict_get g ''file'' = PyStr p'
                 \<and> search MEMORY_SAFETY_PATTERNS d' \<and> search MEMORY_SAFE_LANGS p'))"
proof (intro conjI impI)
  note r = reason_after_earlier_rules[OF assms(1-3) assms(5)]
  {
    assume py: "endswith p ''.py'' \<and> \<not> is_test_file p"
    then have "\<not> search MEMORY_SAFE_LANGS p"
      and "\<not> list_ex (endswith p) [''.md'', ''.rst'', ''.txt'', ''.adoc'']"
      by (simp_all only: py_not_safe_lang py_not_documentation not_False_eq_True)
    with py show "get_exclusion_reason f = Inr None"
      by (simp only: r simp_thms if_False)
  }
  {
    assume "endswith p ''.rs''"
    then have "search MEMORY_SAFE_LANGS p" by (rule rs_safe_lang)
    with assms(4) show "get_exclusion_reason f = Inr (Some ''memory_safety_in_safe_language'')"
      by (simp only: r simp_thms if_True)
  }
  {
    assume "get_exclusion_reason g = Inr (Some ''memory_safety_in_safe_language'')"
    then show "\<exists>d' p'. dict_get g ''description'' = PyStr d'
                 \<and> dict_get g ''file'' = PyStr p'
                 \<and> search MEMORY_SAFETY_PATTERNS d' \<and> search MEMORY_SAFE_LANGS p'"
      by (rule memory_safety_reason_only)
  }
qed

lemma overflow_finding_get:
  "dict_get (overflow_finding d p) ''category'' = PyStr []"
  "dict_get (overflow_finding d p) ''description'' = PyStr d"
  "dict_get (overflow_finding d p) ''file'' = PyStr p"
  by (simp_all add: overflow_finding_def dict_get_def)

theorem memory_safety_needs_both_witness:
  "get_exclusion_reason (overflow_finding ''buffer overflow'' ''app.py'') = Inr None
   \<and> get_exclusion_reason (overflow_finding ''buffer overflow'' ''app.rs'')
       = Inr (Some ''memory_safety_in_safe_language'')"
proof -
  have m: "search MEMORY_SAFETY_PATTERNS ''buffer overflow''" by code_simp
  have e: "\<not> earlier_rule_fires [] ''buffer overflow''" by code_simp
  have py: "endswith ''app.py'' ''.py'' \<and> \<not> is_test_file ''app.py''" by code_simp
  have rs: "endswith ''app.rs'' ''.rs''" by code_simp
  have a: "get_exclusion_reason (overflow_finding ''buffer overflow'' ''app.py'') = Inr None"
    using memory_safety_needs_both[OF overflow_finding_get m e, THEN conjunct1] py
    by (rule mp)
  have b: "get_exclusion_reason (overflow_finding ''buffer overflow'' ''app.rs'')
       = Inr (Some ''memory_safety_in_safe_language'')"
    using memory_safety_needs_both[OF overflow_finding_get m e,
        THEN conjunct2, THEN conjunct1] rs
    by (rule mp)
  from a b show ?thesis by (rule conjI)
qed

text \<open>
  The claim as it was stated fails where an earlier rule fires: a description that
  matches a memory-safety phrase and a denial-of-service phrase is excluded as
  \<open>dos_pattern\<close>, in a \<open>.py\<close> file and in a \<open>.rs\<close> file alike.
\<close>

theorem memory_safety_rule_counterexample:
  "search MEMORY_SAFETY_PATTERNS ''buffer overflow causing denial of service''
   \<and> endswith ''app.py'' ''.py'' \<and> \<not> is_test_file ''app.py''
   \<and> \<not> list_ex (endswith ''app.py'') [''.md'', ''.rst'', ''.txt'', ''.adoc'']
   \<and> get_exclusion_reason
        (overflow_finding ''buffer overflow causing denial of service'' ''app.py'')
       = Inr (Some ''dos_pattern'')
   \<and> endswith ''app.rs'' ''.rs''
   \<and> get_exclusion_reason
        (overflow_finding ''buffer overflow causing denial of service'' ''app.rs'')
       = Inr (Some ''dos_pattern'')"
proof -
  have d: "search DOS_PATTERNS ''buffer overflow causing denial of service''"
    by code_simp
  have c: "normalize_category [] \<notin> EXCLUDED_CATEGORIES" by code_simp
  have r: "get_exclusion_reason
        (overflow_finding ''buffer overflow causing denial of service'' p)
       = Inr (Some ''dos_pattern'')" for p
    by (simp only: get_exclusion_reason_def overflow_finding_get pyval.case Let_def c d
        if_True if_False)
  have m: "search MEMORY_SAFETY_PATTERNS ''buffer overflow causing denial of service''"
    by code_simp
  have py: "endswith ''app.py'' ''.py''" "\<not> is_test_file ''app.py''"
    "\<not> list_ex (endswith ''app.py'') [''.md'', ''.rst'', ''.txt'', ''.adoc'']"
    "endswith ''app.rs'' ''.rs''"
    by code_simp+
  from m py r show ?thesis by (intro conjI)
qed

section \<open>The decoder returns\<close>

lemma strip_blank:
  assumes "\<forall>c\<in>set text. py_isspace c"
  shows "strip text = []"
proof -
  from assms have d: "dropWhile py_isspace text = []"
    by (simp add: dropWhile_eq_Nil_conv)
  show ?thesis unfolding strip_def d by simp
qed

lemma code_block_strategy_returns:
  assumes "\<forall>s e. loads s \<noteq> Raises e"
  shows "\<exists>x. code_block_strategy loads text patterns = Inr x"
proof (induction patterns)
  case Nil
  show ?case by simp
next
  case (Cons pattern patterns)
  show ?case
  proof (cases "re_search False pattern text")
    case None
    with Cons show ?thesis by simp
  next
    case (Some group1)
    with Cons assms show ?thesis
      by (cases "loads (strip group1)") simp_all
  qed
qed

lemma bracket_scan_returns:
  assumes "\<forall>s e. loads s \<noteq> Raises e"
  shows "\<exists>x. bracket_scan loads start_char end_char seen rest depth in_string escape_next
           = Inr x"
proof (induction rest arbitrary: seen depth in_string escape_next)
  case Nil
  show ?case by simp
next
  case (Cons char rest)
  have "\<exists>x. (case loads s of
                Parsed result \<Rightarrow> Inr (Some result)
              | JSONDecodeError \<Rightarrow> Inr None
              | Raises e \<Rightarrow> Inl e) = Inr x" for s
    using assms by (cases "loads s") simp_all
  with Cons show ?case by simp
qed

lemma bracket_strategy_returns:
  assumes "\<forall>s e. loads s \<noteq> Raises e"
  shows "\<exists>x. bracket_strategy loads text pairs = Inr x"
proof (induction pairs)
  case Nil
  show ?case by simp
next
  case (Cons pair pairs)
  obtain start_char end_char where pair: "pair = (start_char, end_char)"
    by (cases pair)
  obtain y where "bracket_scan loads start_char end_char []
                      (drop (nat (find_char text start_char)) text) 0 False False = Inr y"
    using bracket_scan_returns[OF assms] by blast
  with Cons show ?case
    by (cases y) (simp_all add: pair Let_def)
qed

lemma parse_json_with_fallbacks_returns:
  assumes "\<forall>s e. loads s \<noteq> Raises e"
  shows "\<exists>ok v. parse_json_with_fallbacks loads text context = Inr (ok, v)
           \<and> (ok \<longleftrightarrow> v \<noteq> None)"
proof -
  obtain x where x: "code_block_strategy loads text code_block_patterns = Inr x"
    using code_block_strategy_returns[OF assms] by blast
  obtain y where y: "bracket_strategy loads text
                          [(CHR ''{'', CHR ''}''), (CHR ''['', CHR '']'')] = Inr y"
    using bracket_strategy_returns[OF assms] by blast
  show ?thesis
    unfolding parse_json_with_fallbacks_def x y
    using assms
    by (cases "loads (strip text)"; cases x; cases y) simp_all
qed

text \<open>
  On the empty text and on a text of whitespace only the decoder returns
  \<open>(False, None)\<close>, whatever \<open>json.loads\<close> would do: it is not called.
\<close>

lemma decode_blank:
  assumes "\<forall>c\<in>set text. py_isspace c"
  shows "parse_json_with_fallbacks loads text context = Inr (False, None)"
proof -
  from assms have "strip text = []" by (rule strip_blank)
  then show ?thesis by (simp add: parse_json_with_fallbacks_def)
qed

section \<open>Exceptions that leave the decoder\<close>

lemma strip_id:
  assumes "s \<noteq> []" and "\<not> py_isspace (hd s)" and "\<not> py_isspace (last s)"
  shows "strip s = s"
proof -
  have a: "dropWhile py_isspace s = s"
    using assms(2) by (simp add: dropWhile_eq_self_iff)
  have b: "dropWhile py_isspace (rev s) = rev s"
    using assms(1,3) by (simp add: dropWhile_eq_self_iff hd_rev)
  show ?thesis unfolding strip_def a b by simp
qed

lemma loads_raising_same: "loads_raising doc e doc = Raises e"
  by (simp add: loads_raising_def)

lemma deep_text_strip:
  assumes "0 < n"
  shows "strip (replicate n (CHR ''['') @ replicate n (CHR '']''))
     = replicate n (CHR ''['') @ replicate n (CHR '']'')"
proof (rule strip_id)
  show "replicate n (CHR ''['') @ replicate n (CHR '']'') \<noteq> []"
    using assms by simp
  have "\<not> py_isspace (CHR ''['')" "\<not> py_isspace (CHR '']'')" by code_simp+
  then show "\<not> py_isspace (hd (replicate n (CHR ''['') @ replicate n (CHR '']'')))"
    "\<not> py_isspace (last (replicate n (CHR ''['') @ replicate n (CHR '']'')))"
    using assms by (simp_all add: hd_append)
qed

lemma long_number_strip:
  assumes "0 < n"
  shows "strip (replicate n (CHR ''1'')) = replicate n (CHR ''1'')"
proof (rule strip_id)
  show "replicate n (CHR ''1'') \<noteq> []" using assms by simp
  have "\<not> py_isspace (CHR ''1'')" by code_simp
  then show "\<not> py_isspace (hd (replicate n (CHR ''1'')))"
    "\<not> py_isspace (last (replicate n (CHR ''1'')))"
    using assms by simp_all
qed

text \<open>
  C7 fails on the code. The decoder catches \<open>JSONDecodeError\<close> and nothing else, so
  when \<open>json.loads\<close> raises another exception on the stripped text, that exception
  leaves \<open>parse_json_with_fallbacks\<close>: the call does not return a pair. \<open>json.loads\<close>
  does so on well-formed strings: \<open>RecursionError\<close> on arrays nested deeper than the
  interpreter allows, \<open>ValueError\<close> on an integer literal longer than its digit limit.
\<close>

theorem loads_exception_escapes:
  assumes "strip text \<noteq> []" and "loads (strip text) = Raises e"
  shows "parse_json_with_fallbacks loads text context = Inl e"
proof -
  from assms(1) have "text \<noteq> []" by (auto simp: strip_def)
  with assms show ?thesis by (simp add: parse_json_with_fallbacks_def)
qed

theorem loads_exception_escapes_witness:
  "parse_json_with_fallbacks
     (loads_raising (replicate 100000 (CHR ''['') @ replicate 100000 (CHR '']''))
        RecursionError :: string \<Rightarrow> (unit, json_exn) loads_result)
     (replicate 100000 (CHR ''['') @ replicate 100000 (CHR '']'')) ''review''
     = Inl RecursionError
   \<and> parse_json_with_fallbacks
       (loads_raising (replicate 5000 (CHR ''1'')) ValueError
          :: string \<Rightarrow> (unit, json_exn) loads_result)
       (replicate 5000 (CHR ''1'')) ''review''
     = Inl ValueError"
proof -
  have deep: "parse_json_with_fallbacks
       (loads_raising (replicate n (CHR ''['') @ replicate n (CHR '']'')) e)
       (replicate n (CHR ''['') @ replicate n (CHR '']'')) ctx = Inl e"
    if n: "0 < n" for n and e :: json_exn and ctx
  proof (rule loads_exception_escapes)
    show "strip (replicate n (CHR ''['') @ replicate n (CHR '']'')) \<noteq> []"
      using n by (simp add: deep_text_strip)
    show "loads_raising (replicate n (CHR ''['') @ replicate n (CHR '']'')) e
            (strip (replicate n (CHR ''['') @ replicate n (CHR '']''))) = Raises e"
      using n by (simp add: deep_text_strip loads_raising_same)
  qed
  have num: "parse_json_with_fallbacks (loads_raising (replicate n (CHR ''1'')) e)
       (replicate n (CHR ''1'')) ctx = Inl e"
    if n: "0 < n" for n and e :: json_exn and ctx
  proof (rule loads_exception_escapes)
    show "strip (replicate n (CHR ''1'')) \<noteq> []"
      using n by (simp add: long_number_strip)
    show "loads_raising (replicate n (CHR ''1'')) e (strip (replicate n (CHR ''1'')))
            = Raises e"
      using n by (simp add: long_number_strip loads_raising_same)
  qed
  have pos: "(0::nat) < 100000" "(0::nat) < 5000" by simp_all
  show ?thesis
    by (rule conjI[OF deep[OF pos(1)] num[OF pos(2)]])
qed

section \<open>A quoted brace before the region\<close>

lemma quoted_brace_text:
  "strip ''say \"{\" then {\"a\": 1}'' = ''say \"{\" then {\"a\": 1}''"
  "re_search False (code_block_patterns ! 0) ''say \"{\" then {\"a\": 1}'' = None"
  "re_search False (code_block_patterns ! 1) ''say \"{\" then {\"a\": 1}'' = None"
  "code_block_patterns = [code_block_patterns ! 0, code_block_patterns ! 1]"
  by code_simp+

lemma quoted_brace_code_block:
  "code_block_strategy loads ''say \"{\" then {\"a\": 1}'' code_block_patterns = Inr None"
  by (subst quoted_brace_text(4))
    (simp only: code_block_strategy.simps quoted_brace_text(2,3) option.case)

lemma quoted_brace_bracket:
  "bracket_strategy loads ''say \"{\" then {\"a\": 1}''
     [(CHR ''{'', CHR ''}''), (CHR ''['', CHR '']'')] = Inr None"
proof -
  have "case bracket_strategy loads ''say \"{\" then {\"a\": 1}''
               [(CHR ''{'', CHR ''}''), (CHR ''['', CHR '']'')] of
          Inr None \<Rightarrow> True | _ \<Rightarrow> False"
    by code_simp
  then show ?thesis by (simp split: sum.splits option.splits)
qed

text \<open>
  C2 fails on the code. In the text \<open>say "{" then {"a": 1}\<close> the one bracketed region
  is \<open>{"a": 1}\<close>, and the only other brace is inside a quoted string of the prose. The
  scan starts at that quoted brace, the first \<open>{\<close> of the text, with \<open>in_string\<close> false, so
  it counts the brace, takes the closing quote for an opening one, and never sees the
  depth return to zero: the decoder returns \<open>(False, None)\<close>, whatever \<open>json.loads\<close>
  makes of the region.
\<close>

theorem quoted_brace_hides_region:
  assumes "loads ''say \"{\" then {\"a\": 1}'' = JSONDecodeError"
  shows "parse_json_with_fallbacks loads ''say \"{\" then {\"a\": 1}'' context
           = Inr (False, None)"
  unfolding parse_json_with_fallbacks_def quoted_brace_text(1) assms
    quoted_brace_code_block quoted_brace_bracket
  by simp

theorem quoted_brace_hides_region_witness:
  "loads_only ''{\"a\": 1}'' (1::int) ''{\"a\": 1}'' = (Parsed 1 :: (int, unit) loads_result)
   \<and> parse_json_with_fallbacks
        (loads_only ''{\"a\": 1}'' (1::int) :: string \<Rightarrow> (int, unit) loads_result)
        ''say \"{\" then {\"a\": 1}'' ''review''
       = Inr (False, None)"
proof -
  have a: "loads_only ''{\"a\": 1}'' (1::int) ''{\"a\": 1}''
             = (Parsed 1 :: (int, unit) loads_result)"
    by (simp add: loads_only_def)
  have b: "(loads_only ''{\"a\": 1}'' (1::int) :: string \<Rightarrow> (int, unit) loads_result)
             ''say \"{\" then {\"a\": 1}'' = JSONDecodeError"
    by (simp add: loads_only_def)
  from a quoted_brace_hides_region[of "loads_only ''{\"a\": 1}'' 1", OF b]
  show ?thesis by (rule conjI)
qed

end
